theory Spec2Isabelle
  imports Main "HOL-Library.Log_Nat"
begin

section \<open>Python values\<close>

text \<open>
  The connector handles decoded JSON: the quality report, its result rows and the
  dataset metadata are whatever \<^verbatim>\<open>r.json()\<close> returned. A decoded value is one of
  Python's \<^verbatim>\<open>None\<close>, \<^verbatim>\<open>bool\<close>, \<^verbatim>\<open>int\<close>, \<^verbatim>\<open>float\<close>, \<^verbatim>\<open>str\<close>, \<^verbatim>\<open>list\<close> and \<^verbatim>\<open>dict\<close>.
  A dict keeps its insertion order, so it is an association list. A float is a finite
  IEEE-754 double, written as the rational number it denotes; NaN and the infinities,
  which the decoder yields only for the literals outside standard JSON and for numbers
  beyond the double range, are not values of the model.
\<close>

datatype pyval =
    PNone
  | PBool bool
  | PInt int
  | PFloat rat
  | PStr string
  | PList "pyval list"
  | PDict "(string \<times> pyval) list"

type_synonym pydict = "(string \<times> pyval) list"

datatype error =
    RuntimeError string
  | HTTPError nat
  | RequestException
  | JSONDecodeError
  | AttributeError
  | TypeError
  | ValueError
  | OverflowError
  | OSError

text \<open>Truth value testing, as \<^verbatim>\<open>bool(x)\<close>, \<^verbatim>\<open>x or y\<close> and \<^verbatim>\<open>if x\<close> do it.\<close>

fun truthy :: "pyval \<Rightarrow> bool" where
  "truthy PNone = False"
| "truthy (PBool b) = b"
| "truthy (PInt i) = (i \<noteq> 0)"
| "truthy (PFloat x) = (x \<noteq> 0)"
| "truthy (PStr s) = (s \<noteq> [])"
| "truthy (PList xs) = (xs \<noteq> [])"
| "truthy (PDict kvs) = (kvs \<noteq> [])"

definition py_or :: "pyval \<Rightarrow> pyval \<Rightarrow> pyval" where
  "py_or a b = (if truthy a then a else b)"

text \<open>\<^verbatim>\<open>d.get(k)\<close> on a dict: the value, or \<^verbatim>\<open>None\<close> for a missing key.\<close>

definition dict_get :: "pydict \<Rightarrow> string \<Rightarrow> pyval" where
  "dict_get d k = (case map_of d k of None \<Rightarrow> PNone | Some v \<Rightarrow> v)"

text \<open>\<^verbatim>\<open>x.get(k)\<close> on any value: only a dict has the method.\<close>

fun py_get :: "pyval \<Rightarrow> string \<Rightarrow> error + pyval" where
  "py_get (PDict d) k = Inr (dict_get d k)"
| "py_get _ k = Inl AttributeError"

section \<open>The event model (models.py)\<close>

text \<open>
  \<^verbatim>\<open>MonitoringPlatformQualityCheck\<close>. The fields hold what the constructor stored:
  \<^verbatim>\<open>category\<close> is annotated \<^verbatim>\<open>dict | None\<close> and stored as \<^verbatim>\<open>category or {}\<close>, so the
  field is a dict; \<^verbatim>\<open>passed\<close> is annotated \<^verbatim>\<open>bool\<close> and \<^verbatim>\<open>at_timestamp\<close> \<^verbatim>\<open>str\<close>, and
  the only caller passes \<^verbatim>\<open>bool(...)\<close> and the normalised timestamp. The other
  arguments are passed through from decoded JSON and may be any value.
\<close>

record event =
  event_type :: string
  dataset_id :: pyval
  dataset_name :: pyval
  name :: pyval
  category :: pydict
  low :: pyval
  value' :: pyval
  passed :: bool
  at_timestamp :: string

definition init_event ::
  "pyval \<Rightarrow> pyval \<Rightarrow> pyval \<Rightarrow> pydict option \<Rightarrow> pyval \<Rightarrow> pyval \<Rightarrow> bool \<Rightarrow> string \<Rightarrow> event" where
  "init_event ds_id ds_name nm cat lo v p ts =
     \<lparr> event_type = ''quality_check'',
       dataset_id = ds_id,
       dataset_name = ds_name,
       name = nm,
       category = (case cat of None \<Rightarrow> [] | Some c \<Rightarrow> (if c \<noteq> [] then c else [])),
       low = lo,
       value' = v,
       passed = p,
       at_timestamp = ts \<rparr>"

definition not_none :: "string \<times> pyval \<Rightarrow> bool" where
  "not_none kv = (snd kv \<noteq> PNone)"

text \<open>
  \<^verbatim>\<open>to_dict\<close>: the payload dict is built in full, the \<^verbatim>\<open>category\<close> entry being the
  comprehension over the two sub-fields when \<^verbatim>\<open>self.category\<close> is truthy and \<^verbatim>\<open>None\<close>
  otherwise; the result keeps the entries whose value is not \<^verbatim>\<open>None\<close>.
\<close>

definition category_entry :: "event \<Rightarrow> pyval" where
  "category_entry e =
     (if category e \<noteq> [] then
        PDict (filter not_none
          [ (''context'', dict_get (if category e \<noteq> [] then category e else []) ''context''),
            (''category'', dict_get (if category e \<noteq> [] then category e else []) ''category'') ])
      else PNone)"

definition to_dict :: "event \<Rightarrow> pydict" where
  "to_dict e =
     filter not_none
       [ (''event_type'', PStr (event_type e)),
         (''dataset_id'', dataset_id e),
         (''dataset_name'', dataset_name e),
         (''name'', name e),
         (''category'', category_entry e),
         (''low'', low e),
         (''value'', value' e),
         (''passed'', PBool (passed e)),
         (''@timestamp'', PStr (at_timestamp e)) ]"


section \<open>Strings, dates and floats of the standard library\<close>

text \<open>
  A \<^verbatim>\<open>str\<close> is a list of characters (code points below 256). \<^verbatim>\<open>str.strip()\<close> removes
  leading and trailing whitespace, \<^verbatim>\<open>str.rstrip("/")\<close> trailing slashes, and
  \<^verbatim>\<open>str.replace(old, new)\<close> every non-overlapping occurrence from the left.
\<close>

definition is_space :: "char \<Rightarrow> bool" where
  "is_space c = (c \<in> set [CHR 0x09, CHR 0x0A, CHR 0x0B, CHR 0x0C, CHR 0x0D,
                           CHR 0x1C, CHR 0x1D, CHR 0x1E, CHR 0x1F, CHR 0x20,
                           CHR 0x85, CHR 0xA0])"

definition strip :: "string \<Rightarrow> string" where
  "strip s = rev (dropWhile is_space (rev (dropWhile is_space s)))"

definition rstrip_slash :: "string \<Rightarrow> string" where
  "rstrip_slash s = rev (dropWhile (\<lambda>c. c = CHR ''/'') (rev s))"

fun replace_from :: "nat \<Rightarrow> string \<Rightarrow> string \<Rightarrow> string \<Rightarrow> string" where
  "replace_from skip old new [] = []"
| "replace_from (Suc k) old new (c # cs) = replace_from k old new cs"
| "replace_from 0 old new (c # cs) =
     (if old \<noteq> [] \<and> take (length old) (c # cs) = old
      then new @ replace_from (length old - 1) old new cs
      else c # replace_from 0 old new cs)"

definition replace :: "string \<Rightarrow> string \<Rightarrow> string \<Rightarrow> string" where
  "replace old new s = replace_from 0 old new s"

text \<open>Decimal digits, zero-padded to a width, as \<^verbatim>\<open>%04d\<close> and \<^verbatim>\<open>%02d\<close> print them.\<close>

definition digit_char :: "nat \<Rightarrow> char" where
  "digit_char n = ''0123456789'' ! n"

fun digits :: "nat \<Rightarrow> string" where
  "digits n = (if n < 10 then [digit_char n] else digits (n div 10) @ [digit_char (n mod 10)])"

declare digits.simps [simp del]

definition zpad :: "nat \<Rightarrow> int \<Rightarrow> string" where
  "zpad w n = replicate (w - length (digits (nat n))) (CHR ''0'') @ digits (nat n)"

text \<open>
  A \<^verbatim>\<open>datetime\<close>: the calendar fields and the UTC offset of its \<^verbatim>\<open>tzinfo\<close> in seconds
  (\<open>None\<close> for a naive value).
\<close>

record datetime =
  year :: int
  month :: int
  day :: int
  hour :: int
  minute :: int
  second :: int
  microsecond :: int
  tzoffset :: "int option"

text \<open>
  The proleptic Gregorian calendar of \<^verbatim>\<open>datetime\<close> and \<^verbatim>\<open>gmtime\<close>: the civil date of a
  day number counted from 1970-01-01, and back.
\<close>

definition civil_from_days :: "int \<Rightarrow> int \<times> int \<times> int" where
  "civil_from_days z =
     (let z' = z + 719468;
          era = z' div 146097;
          doe = z' - era * 146097;
          yoe = (doe - doe div 1460 + doe div 36524 - doe div 146096) div 365;
          doy = doe - (365 * yoe + yoe div 4 - yoe div 100);
          mp = (5 * doy + 2) div 153;
          d = doy - (153 * mp + 2) div 5 + 1;
          m = (if mp < 10 then mp + 3 else mp - 9)
      in (yoe + era * 400 + (if m \<le> 2 then 1 else 0), m, d))"

definition days_from_civil :: "int \<Rightarrow> int \<Rightarrow> int \<Rightarrow> int" where
  "days_from_civil y m d =
     (let y' = (if m \<le> 2 then y - 1 else y);
          era = y' div 400;
          yoe = y' - era * 400;
          doy = (153 * (if 2 < m then m - 3 else m + 9) + 2) div 5 + d - 1;
          doe = yoe * 365 + yoe div 4 - yoe div 100 + doy
      in era * 146097 + doe - 719468)"

text \<open>
  The UTC \<^verbatim>\<open>datetime\<close> of a count of seconds since the epoch and a microsecond part.
  \<^verbatim>\<open>datetime\<close> holds the years 1 to 9999 only: outside them the constructor raises
  \<^verbatim>\<open>ValueError\<close> (\<^verbatim>\<open>year ... is out of range\<close>); a count outside the platform's 64-bit
  \<^verbatim>\<open>time_t\<close> raises \<^verbatim>\<open>OverflowError\<close> first, and a year that does not fit \<^verbatim>\<open>gmtime\<close>'s
  32-bit \<^verbatim>\<open>tm_year\<close> raises \<^verbatim>\<open>OSError\<close>.
\<close>

definition utc_datetime :: "int \<Rightarrow> int \<Rightarrow> error + datetime" where
  "utc_datetime secs us =
     (if secs < - (2 ^ 63) \<or> 2 ^ 63 \<le> secs then Inl OverflowError
      else
        (let (y, m, d) = civil_from_days (secs div 86400);
             r = secs mod 86400
         in if y - 1900 < - (2 ^ 31) \<or> 2 ^ 31 \<le> y - 1900 then Inl OSError
            else if y < 1 \<or> 9999 < y then Inl ValueError
            else Inr \<lparr> year = y, month = m, day = d, hour = r div 3600,
                       minute = (r mod 3600) div 60, second = r mod 60,
                       microsecond = us, tzoffset = Some 0 \<rparr>))"

text \<open>
  IEEE-754 binary64 arithmetic on the rationals that doubles denote: \<open>to_double\<close> rounds
  a rational to the nearest double, ties to even (53 significant bits, the subnormal
  spacing \<open>2^-1074\<close> at the bottom). Python's \<^verbatim>\<open>float(int)\<close>, \<^verbatim>\<open>/\<close> and \<^verbatim>\<open>*\<close> on floats
  are the exact result rounded this way.
\<close>

definition pow2 :: "int \<Rightarrow> rat" where
  "pow2 e = (if 0 \<le> e then 2 ^ nat e else 1 / 2 ^ nat (- e))"

definition ilog2 :: "rat \<Rightarrow> int" where
  "ilog2 x = (if 1 \<le> \<bar>x\<bar> then bitlen \<lfloor>\<bar>x\<bar>\<rfloor> - 1 else - bitlen (\<lceil>1 / \<bar>x\<bar>\<rceil> - 1))"

definition round_half_even :: "rat \<Rightarrow> int" where
  "round_half_even m =
     (let f = \<lfloor>m\<rfloor>; d = m - of_int f
      in if d < 1 / 2 then f else if 1 / 2 < d then f + 1 else if even f then f else f + 1)"

definition to_double :: "rat \<Rightarrow> rat" where
  "to_double x =
     (if x = 0 then 0
      else (let u = pow2 (max (ilog2 x - 52) (- 1074))
            in of_int (round_half_even (x / u)) * u))"

definition trunc :: "rat \<Rightarrow> int" where
  "trunc x = (if 0 \<le> x then \<lfloor>x\<rfloor> else \<lceil>x\<rceil>)"

text \<open>
  \<^verbatim>\<open>float(x)\<close>. An \<^verbatim>\<open>int\<close> beyond the double range raises \<^verbatim>\<open>OverflowError\<close>; a \<^verbatim>\<open>str\<close>
  is parsed (the parser is a parameter, \<open>None\<close> where it raises \<^verbatim>\<open>ValueError\<close>);
  \<^verbatim>\<open>None\<close>, a list and a dict raise \<^verbatim>\<open>TypeError\<close>.
\<close>

fun py_float :: "(string \<Rightarrow> rat option) \<Rightarrow> pyval \<Rightarrow> error + rat" where
  "py_float parse PNone = Inl TypeError"
| "py_float parse (PBool b) = Inr (if b then 1 else 0)"
| "py_float parse (PInt i) =
     (let d = to_double (of_int i) in if 2 ^ 1024 \<le> \<bar>d\<bar> then Inl OverflowError else Inr d)"
| "py_float parse (PFloat x) = Inr x"
| "py_float parse (PStr s) = (case parse s of None \<Rightarrow> Inl ValueError | Some x \<Rightarrow> Inr x)"
| "py_float parse (PList xs) = Inl TypeError"
| "py_float parse (PDict kvs) = Inl TypeError"

text \<open>
  \<^verbatim>\<open>datetime.fromtimestamp(x, tz=timezone.utc)\<close> for a float \<open>x\<close>, as CPython does it:
  \<^verbatim>\<open>modf\<close> splits \<open>x\<close> into its integral part and its fraction, the fraction times
  \<open>10^6\<close> (a float product) is rounded half-even to whole microseconds, a carry or a
  borrow moves into the seconds, and the seconds go through \<^verbatim>\<open>gmtime\<close>.
\<close>

definition fromtimestamp :: "rat \<Rightarrow> error + datetime" where
  "fromtimestamp x =
     (let intpart = trunc x;
          floatpart = round_half_even (to_double ((x - of_int intpart) * 1000000))
      in if 1000000 \<le> floatpart then utc_datetime (intpart + 1) (floatpart - 1000000)
         else if floatpart < 0 then utc_datetime (intpart - 1) (floatpart + 1000000)
         else utc_datetime intpart floatpart)"

text \<open>
  \<^verbatim>\<open>dt.astimezone(timezone.utc)\<close> of an aware value: the same instant at offset zero;
  \<^verbatim>\<open>OverflowError\<close> (here \<open>None\<close>) when that leaves the years 1 to 9999.
\<close>

definition epoch_seconds :: "datetime \<Rightarrow> int" where
  "epoch_seconds dt =
     days_from_civil (year dt) (month dt) (day dt) * 86400
       + hour dt * 3600 + minute dt * 60 + second dt"

definition astimezone_utc :: "datetime \<Rightarrow> datetime option" where
  "astimezone_utc dt =
     (case tzoffset dt of
        None \<Rightarrow> None
      | Some off \<Rightarrow>
          (case utc_datetime (epoch_seconds dt - off) (microsecond dt) of
             Inl e \<Rightarrow> None
           | Inr u \<Rightarrow> Some u))"

text \<open>
  \<^verbatim>\<open>dt.isoformat(timespec="milliseconds")\<close>: the microseconds are cut to milliseconds,
  and an aware value ends with its offset, \<^verbatim>\<open>+00:00\<close> for UTC.
\<close>

definition format_offset :: "int \<Rightarrow> string" where
  "format_offset off =
     (let a = \<bar>off\<bar> in
        (if off < 0 then ''-'' else ''+'') @ zpad 2 (a div 3600) @ '':''
        @ zpad 2 ((a mod 3600) div 60)
        @ (if a mod 60 \<noteq> 0 then '':'' @ zpad 2 (a mod 60) else []))"

definition isoformat_ms :: "datetime \<Rightarrow> string" where
  "isoformat_ms dt =
     zpad 4 (year dt) @ ''-'' @ zpad 2 (month dt) @ ''-'' @ zpad 2 (day dt) @ ''T''
     @ zpad 2 (hour dt) @ '':'' @ zpad 2 (minute dt) @ '':'' @ zpad 2 (second dt)
     @ ''.'' @ zpad 3 (microsecond dt div 1000)
     @ (case tzoffset dt of None \<Rightarrow> [] | Some off \<Rightarrow> format_offset off)"

text \<open>\<^verbatim>\<open>dt.strftime('%Y%m%d%H%M%S')\<close>.\<close>

definition strftime_compact :: "datetime \<Rightarrow> string" where
  "strftime_compact dt =
     zpad 4 (year dt) @ zpad 2 (month dt) @ zpad 2 (day dt)
     @ zpad 2 (hour dt) @ zpad 2 (minute dt) @ zpad 2 (second dt)"

section \<open>The connector (main.py)\<close>

text \<open>\<^verbatim>\<open>_opt\<close>: the string if it is non-empty after trimming, else \<^verbatim>\<open>None\<close>.\<close>

definition opt :: "string option \<Rightarrow> string option" where
  "opt s = (case s of None \<Rightarrow> None
            | Some v \<Rightarrow> (if v \<noteq> [] \<and> strip v \<noteq> [] then Some v else None))"

definition iso_z :: "datetime \<Rightarrow> string" where
  "iso_z dt = replace ''+00:00'' ''Z'' (isoformat_ms dt)"

text \<open>
  \<^verbatim>\<open>to_iso_z\<close>. \<open>parse\<close> is \<^verbatim>\<open>dateutil.parser.isoparse\<close> (\<open>None\<close> where it raises) and
  \<open>now\<close> the value \<^verbatim>\<open>datetime.now(timezone.utc)\<close> has at the call. The numeric branch
  (\<^verbatim>\<open>bool\<close> is an \<^verbatim>\<open>int\<close>) stands outside the \<^verbatim>\<open>try\<close>; the \<^verbatim>\<open>try\<close> turns every exception
  of the string branch into the current time.
\<close>

definition numeric_to_iso_z :: "pyval \<Rightarrow> error + string" where
  "numeric_to_iso_z ts =
     (case py_float (\<lambda>s. None) ts of
        Inl e \<Rightarrow> Inl e
      | Inr x \<Rightarrow>
          (case fromtimestamp (to_double (x / 1000)) of
             Inl e \<Rightarrow> Inl e
           | Inr dt \<Rightarrow> Inr (iso_z dt)))"

definition parsed_to_iso_z :: "(pyval \<Rightarrow> datetime option) \<Rightarrow> datetime \<Rightarrow> pyval \<Rightarrow> string" where
  "parsed_to_iso_z parse now ts =
     (case parse ts of
        None \<Rightarrow> iso_z now
      | Some dt \<Rightarrow>
          (case astimezone_utc (if tzoffset dt = None then dt\<lparr>tzoffset := Some 0\<rparr> else dt) of
             None \<Rightarrow> iso_z now
           | Some u \<Rightarrow> iso_z u))"

fun to_iso_z :: "(pyval \<Rightarrow> datetime option) \<Rightarrow> datetime \<Rightarrow> pyval \<Rightarrow> error + string" where
  "to_iso_z parse now PNone = Inr (iso_z now)"
| "to_iso_z parse now (PBool b) = numeric_to_iso_z (PBool b)"
| "to_iso_z parse now (PInt i) = numeric_to_iso_z (PInt i)"
| "to_iso_z parse now (PFloat x) = numeric_to_iso_z (PFloat x)"
| "to_iso_z parse now ts = Inr (parsed_to_iso_z parse now ts)"

text \<open>
  The reading of an epoch value that \<^verbatim>\<open>to_iso_z\<close> is measured against: the instant
  \<open>t\<close> milliseconds after 1970-01-01T00:00:00 UTC, written with millisecond precision
  and the suffix \<^verbatim>\<open>Z\<close>, computed on the integers.
\<close>

definition iso_of_epoch_ms :: "int \<Rightarrow> string" where
  "iso_of_epoch_ms t =
     (let secs = t div 1000;
          ms = t mod 1000;
          (y, m, d) = civil_from_days (secs div 86400);
          r = secs mod 86400
      in zpad 4 y @ ''-'' @ zpad 2 m @ ''-'' @ zpad 2 d @ ''T''
         @ zpad 2 (r div 3600) @ '':'' @ zpad 2 ((r mod 3600) div 60) @ '':'' @ zpad 2 (r mod 60)
         @ ''.'' @ zpad 3 ms @ ''Z'')"

text \<open>
  The network. A request is what \<^verbatim>\<open>requests.get\<close> or \<^verbatim>\<open>requests.post\<close> was called
  with; a response carries the status, the body text and what \<^verbatim>\<open>r.json()\<close> makes of the
  body (\<open>None\<close> where decoding raises). \<^verbatim>\<open>r.ok\<close> and \<^verbatim>\<open>r.raise_for_status()\<close> treat the
  statuses 400 to 599 as failures.
\<close>

datatype http_method = GET | POST

record request =
  meth :: http_method
  url :: string
  params :: "(string \<times> string) list"
  headers :: "(string \<times> string) list"
  json_payload :: "pydict option"
  timeout :: nat

record response =
  status_code :: nat
  body_text :: string
  json_body :: "pyval option"

definition error_status :: "nat \<Rightarrow> bool" where
  "error_status c = (400 \<le> c \<and> c < 600)"

definition ok :: "response \<Rightarrow> bool" where
  "ok r = (\<not> error_status (status_code r))"

definition raise_for_status :: "response \<Rightarrow> error + unit" where
  "raise_for_status r =
     (if error_status (status_code r) then Inl (HTTPError (status_code r)) else Inr ())"

definition json :: "response \<Rightarrow> error + pyval" where
  "json r = (case json_body r of None \<Rightarrow> Inl JSONDecodeError | Some j \<Rightarrow> Inr j)"

text \<open>
  The surroundings of a run: the servers (the reply to a request may depend on the
  requests made before it; a transport failure is an exception), the clock (the time read
  after a given number of network calls), \<^verbatim>\<open>dateutil\<close>'s \<^verbatim>\<open>isoparse\<close> and the parser of
  \<^verbatim>\<open>float(str)\<close>.
\<close>

record env =
  server :: "request list \<Rightarrow> request \<Rightarrow> error + response"
  clock :: "nat \<Rightarrow> datetime"
  isoparse :: "pyval \<Rightarrow> datetime option"
  float_of_str :: "string \<Rightarrow> rat option"

text \<open>
  The connector object, and what a run has done so far: the network calls made, in
  order, and the two counters of \<^verbatim>\<open>run_once\<close>. Console logging is not modelled, except
  where a log line evaluates something that can raise.
\<close>

record connector =
  base :: string
  criteria_ids :: "string list"
  dataset_ids :: "string list"
  logstash_url :: string
  logstash_basic_auth :: "string option"

record run_state =
  trace :: "request list"
  total_pairs :: nat
  total_events :: nat

definition init_connector ::
  "string \<Rightarrow> string list \<Rightarrow> string list \<Rightarrow> string \<Rightarrow> string option \<Rightarrow> connector" where
  "init_connector feast_server_url crits dss ls_url ls_auth =
     \<lparr> base = rstrip_slash feast_server_url, criteria_ids = crits, dataset_ids = dss,
       logstash_url = ls_url, logstash_basic_auth = ls_auth \<rparr>"

definition http :: "env \<Rightarrow> request \<Rightarrow> run_state \<Rightarrow> (error + response) \<times> run_state" where
  "http ev rq st = (server ev (trace st) rq, st\<lparr>trace := trace st @ [rq]\<rparr>)"

definition feast_headers :: "(string \<times> string) list" where
  "feast_headers = [(''Content-Type'', ''application/json'')]"

definition resolve_logstash_basic :: "connector \<Rightarrow> error + string" where
  "resolve_logstash_basic self =
     (case opt (logstash_basic_auth self) of
        None \<Rightarrow> Inl (RuntimeError
          ''Missing Logstash credentials: LOGSTASH_BASIC_AUTH must be set (base64 user:pass)'')
      | Some token \<Rightarrow>
          (if token = [] then Inl (RuntimeError
             ''Missing Logstash credentials: LOGSTASH_BASIC_AUTH must be set (base64 user:pass)'')
           else Inr token))"

definition logstash_headers :: "connector \<Rightarrow> error + (string \<times> string) list" where
  "logstash_headers self =
     (case resolve_logstash_basic self of
        Inl e \<Rightarrow> Inl e
      | Inr token \<Rightarrow>
          Inr [(''Content-Type'', ''application/json''), (''Authorization'', ''Basic '' @ token)])"

definition dataset_request :: "connector \<Rightarrow> string \<Rightarrow> request" where
  "dataset_request self ds =
     \<lparr> meth = GET, url = base self @ ''/Dataset/'' @ ds, params = [],
       headers = feast_headers, json_payload = None, timeout = 30 \<rparr>"

definition fetch_dataset_name ::
  "connector \<Rightarrow> env \<Rightarrow> string \<Rightarrow> run_state \<Rightarrow> (error + pyval) \<times> run_state" where
  "fetch_dataset_name self ev ds st =
     (case http ev (dataset_request self ds) st of
        (Inl e, st') \<Rightarrow> (Inl e, st')
      | (Inr r, st') \<Rightarrow>
          (if ok r \<and> body_text r \<noteq> [] then
             (case json r of
                Inl e \<Rightarrow> (Inl e, st')
              | Inr j \<Rightarrow>
                  (case py_get j ''title'' of
                     Inl e \<Rightarrow> (Inl e, st')
                   | Inr t \<Rightarrow>
                       (if truthy t then (Inr t, st')
                        else (case py_get j ''name'' of
                                Inl e \<Rightarrow> (Inl e, st')
                              | Inr n \<Rightarrow> (Inr n, st')))))
           else (Inr PNone, st')))"

definition quality_request :: "connector \<Rightarrow> datetime \<Rightarrow> string \<Rightarrow> string \<Rightarrow> request" where
  "quality_request self utcnow ds crit =
     (let ts_str = strftime_compact utcnow;
          filename_only = ds @ ''-'' @ crit @ ''-'' @ ts_str @ ''.json''
      in \<lparr> meth = POST,
           url = base self @ ''/Dataset/'' @ ds @ ''/DatasetQualityCriteria/'' @ crit @ ''/$quality'',
           params = [(''outputPath'', filename_only)],
           headers = feast_headers, json_payload = None, timeout = 180 \<rparr>)"

definition evaluate_quality ::
  "connector \<Rightarrow> env \<Rightarrow> string \<Rightarrow> string \<Rightarrow> run_state \<Rightarrow> (error + pyval) \<times> run_state" where
  "evaluate_quality self ev ds crit st =
     (case http ev (quality_request self (clock ev (length (trace st))) ds crit) st of
        (Inl e, st') \<Rightarrow> (Inl e, st')
      | (Inr r, st') \<Rightarrow>
          (case raise_for_status r of
             Inl e \<Rightarrow> (Inl e, st')
           | Inr u \<Rightarrow> (json r, st')))"

definition event_request :: "connector \<Rightarrow> (string \<times> string) list \<Rightarrow> event \<Rightarrow> request" where
  "event_request self hs evt =
     \<lparr> meth = POST, url = logstash_url self, params = [], headers = hs,
       json_payload = Some (to_dict evt), timeout = 30 \<rparr>"

text \<open>
  \<^verbatim>\<open>send_event\<close>. The arguments of \<^verbatim>\<open>requests.post\<close> are evaluated before the call, so
  \<^verbatim>\<open>_logstash_headers()\<close> raises before anything is sent.
\<close>

definition send_event ::
  "connector \<Rightarrow> env \<Rightarrow> event \<Rightarrow> run_state \<Rightarrow> (error + unit) \<times> run_state" where
  "send_event self ev evt st =
     (case logstash_headers self of
        Inl e \<Rightarrow> (Inl e, st)
      | Inr hs \<Rightarrow>
          (case http ev (event_request self hs evt) st of
             (Inl e, st') \<Rightarrow> (Inl e, st')
           | (Inr r, st') \<Rightarrow> (raise_for_status r, st')))"

text \<open>
  The event of one result row, as the body of the innermost loop builds it: the
  arguments of the constructor in their order, each \<^verbatim>\<open>.get\<close> failing on a value that is
  not a dict.
\<close>

definition build_event ::
  "env \<Rightarrow> pydict \<Rightarrow> string \<Rightarrow> pyval \<Rightarrow> string \<Rightarrow> pyval \<Rightarrow> error + event" where
  "build_event ev report ds_id ds_name iso_ts res =
     (case res of
        PDict row \<Rightarrow>
          (case py_or (dict_get row ''category'') (PDict []) of
             PDict cat \<Rightarrow>
               (case (if dict_get row ''value'' \<noteq> PNone
                      then map_sum id PFloat (py_float (float_of_str ev) (dict_get row ''value''))
                      else Inr PNone) of
                  Inl e \<Rightarrow> Inl e
                | Inr v \<Rightarrow>
                    Inr (init_event
                      (py_or (dict_get report ''datasetId'') (PStr ds_id))
                      ds_name
                      (dict_get row ''name'')
                      (Some [(''context'', dict_get cat ''context''),
                             (''category'', dict_get cat ''category'')])
                      (dict_get row ''low'')
                      v
                      (truthy (dict_get row ''passed''))
                      iso_ts))
           | _ \<Rightarrow> Inl AttributeError)
      | _ \<Rightarrow> Inl AttributeError)"

fun send_results ::
  "connector \<Rightarrow> env \<Rightarrow> pydict \<Rightarrow> string \<Rightarrow> pyval \<Rightarrow> string \<Rightarrow> pyval list \<Rightarrow> run_state
     \<Rightarrow> (error + unit) \<times> run_state" where
  "send_results self ev report ds_id ds_name iso_ts [] st = (Inr (), st)"
| "send_results self ev report ds_id ds_name iso_ts (res # rest) st =
     (case build_event ev report ds_id ds_name iso_ts res of
        Inl e \<Rightarrow> (Inl e, st)
      | Inr evt \<Rightarrow>
          (case send_event self ev evt st of
             (Inl e, st') \<Rightarrow> (Inl e, st')
           | (Inr u, st') \<Rightarrow>
               send_results self ev report ds_id ds_name iso_ts rest
                 (st'\<lparr>total_events := total_events st' + 1\<rparr>)))"

text \<open>\<^verbatim>\<open>len(x)\<close> and \<^verbatim>\<open>for res in x\<close> on a decoded value.\<close>

fun py_len :: "pyval \<Rightarrow> error + nat" where
  "py_len (PStr s) = Inr (length s)"
| "py_len (PList xs) = Inr (length xs)"
| "py_len (PDict kvs) = Inr (length kvs)"
| "py_len _ = Inl TypeError"

fun py_iter :: "pyval \<Rightarrow> error + pyval list" where
  "py_iter (PStr s) = Inr (map (\<lambda>c. PStr [c]) s)"
| "py_iter (PList xs) = Inr xs"
| "py_iter (PDict kvs) = Inr (map (\<lambda>kv. PStr (fst kv)) kvs)"
| "py_iter _ = Inl TypeError"

text \<open>
  One dataset/criteria pair: the body of the loop over \<^verbatim>\<open>self.criteria_ids\<close>. The log
  line before the results loop evaluates \<^verbatim>\<open>len(results)\<close>.
\<close>

definition run_pair ::
  "connector \<Rightarrow> env \<Rightarrow> string \<Rightarrow> pyval \<Rightarrow> string \<Rightarrow> run_state \<Rightarrow> (error + unit) \<times> run_state" where
  "run_pair self ev ds_id ds_name crit st =
     (case evaluate_quality self ev ds_id crit (st\<lparr>total_pairs := total_pairs st + 1\<rparr>) of
        (Inl e, st') \<Rightarrow> (Inl e, st')
      | (Inr rep, st') \<Rightarrow>
          (case rep of
             PDict report \<Rightarrow>
               (case to_iso_z (isoparse ev) (clock ev (length (trace st')))
                       (dict_get report ''issued'') of
                  Inl e \<Rightarrow> (Inl e, st')
                | Inr iso_ts \<Rightarrow>
                    (let results = py_or (dict_get report ''results'') (PList []) in
                     case py_len results of
                       Inl e \<Rightarrow> (Inl e, st')
                     | Inr n \<Rightarrow>
                         (case py_iter results of
                            Inl e \<Rightarrow> (Inl e, st')
                          | Inr rows \<Rightarrow>
                              send_results self ev report ds_id ds_name iso_ts rows st')))
           | _ \<Rightarrow> (Inl AttributeError, st')))"

fun run_criteria ::
  "connector \<Rightarrow> env \<Rightarrow> string \<Rightarrow> pyval \<Rightarrow> string list \<Rightarrow> run_state
     \<Rightarrow> (error + unit) \<times> run_state" where
  "run_criteria self ev ds_id ds_name [] st = (Inr (), st)"
| "run_criteria self ev ds_id ds_name (crit # rest) st =
     (case run_pair self ev ds_id ds_name crit st of
        (Inl e, st') \<Rightarrow> (Inl e, st')
      | (Inr u, st') \<Rightarrow> run_criteria self ev ds_id ds_name rest st')"

fun run_datasets ::
  "connector \<Rightarrow> env \<Rightarrow> string list \<Rightarrow> run_state \<Rightarrow> (error + unit) \<times> run_state" where
  "run_datasets self ev [] st = (Inr (), st)"
| "run_datasets self ev (ds_id # rest) st =
     (case fetch_dataset_name self ev ds_id st of
        (Inl e, st') \<Rightarrow> (Inl e, st')
      | (Inr ds_name, st') \<Rightarrow>
          (case run_criteria self ev ds_id ds_name (criteria_ids self) st' of
             (Inl e, st'') \<Rightarrow> (Inl e, st'')
           | (Inr u, st'') \<Rightarrow> run_datasets self ev rest st''))"

definition run_once :: "connector \<Rightarrow> env \<Rightarrow> (error + unit) \<times> run_state" where
  "run_once self ev =
     run_datasets self ev (dataset_ids self) \<lparr> trace = [], total_pairs = 0, total_events = 0 \<rparr>"

section \<open>What a run leaves behind\<close>

text \<open>
  The \<open>i\<close>-th network call of a run received the reply
  \<open>server ev (take i tr) (tr ! i)\<close>, \<open>tr\<close> being the calls made. The two \<^verbatim>\<open>POST\<close> calls
  of the connector are the quality evaluation and the event forwarding; the metadata read
  is the only \<^verbatim>\<open>GET\<close>. \<open>post_failed\<close> says that call \<open>i\<close> was a \<^verbatim>\<open>POST\<close> answered with an
  error status, and \<open>stops_at\<close> that every such call is the last call of the run and its
  status is the error the run ended with.
\<close>

definition err_of :: "error + 'a \<Rightarrow> error option" where
  "err_of res = (case res of Inl e \<Rightarrow> Some e | Inr v \<Rightarrow> None)"

definition post_failed :: "env \<Rightarrow> request list \<Rightarrow> nat \<Rightarrow> bool" where
  "post_failed ev tr i =
     (meth (tr ! i) = POST \<and>
      (case server ev (take i tr) (tr ! i) of
         Inl e \<Rightarrow> False
       | Inr r \<Rightarrow> error_status (status_code r)))"

definition stops_at :: "env \<Rightarrow> error option \<Rightarrow> request list \<Rightarrow> bool" where
  "stops_at ev err tr =
     (\<forall>i < length tr. post_failed ev tr i \<longrightarrow>
        Suc i = length tr \<and>
        (case server ev (take i tr) (tr ! i) of
           Inl e \<Rightarrow> False
         | Inr r \<Rightarrow> err = Some (HTTPError (status_code r))))"

section \<open>Example runs\<close>

text \<open>
  A connector for the datasets \<^verbatim>\<open>d1\<close>, \<^verbatim>\<open>d2\<close> and the criteria \<^verbatim>\<open>c1\<close>, and surroundings in
  which the metadata read, the quality evaluation and the ingestion endpoint each answer
  with a fixed response.
\<close>

definition demo_connector :: connector where
  "demo_connector =
     init_connector ''http://feast/'' [''c1''] [''d1'', ''d2''] ''http://logstash''
       (Some ''dXNlcjpwYXNz'')"

definition demo_clock :: "nat \<Rightarrow> datetime" where
  "demo_clock n =
     \<lparr> year = 2024, month = 1, day = 1, hour = 0, minute = 0, second = int n,
       microsecond = 0, tzoffset = Some 0 \<rparr>"

definition demo_server ::
  "response \<Rightarrow> response \<Rightarrow> response \<Rightarrow> request list \<Rightarrow> request \<Rightarrow> error + response" where
  "demo_server meta quality ingest tr rq =
     (if meth rq = GET then Inr meta
      else if url rq = ''http://logstash'' then Inr ingest
      else Inr quality)"

definition demo_env :: "response \<Rightarrow> response \<Rightarrow> response \<Rightarrow> env" where
  "demo_env meta quality ingest =
     \<lparr> server = demo_server meta quality ingest, clock = demo_clock,
       isoparse = (\<lambda>v. None), float_of_str = (\<lambda>s. None) \<rparr>"

definition json_response :: "nat \<Rightarrow> pyval \<Rightarrow> response" where
  "json_response c j = \<lparr> status_code = c, body_text = ''{...}'', json_body = Some j \<rparr>"

definition demo_meta :: response where
  "demo_meta =
     json_response 200 (PDict [(''title'', PStr ''Dataset one''), (''name'', PStr ''d1-name'')])"

definition demo_row :: pyval where
  "demo_row =
     PDict [(''name'', PStr ''completeness''), (''value'', PFloat (19 / 20)),
            (''passed'', PBool True)]"

definition start :: run_state where
  "start = \<lparr> trace = [], total_pairs = 0, total_events = 0 \<rparr>"

text \<open>Two rows to forward, and the ingestion endpoint answers 500.\<close>

definition ingest_failure_run :: "(error + unit) \<times> run_state" where
  "ingest_failure_run =
     run_once demo_connector
       (demo_env demo_meta
          (json_response 200 (PDict [(''datasetId'', PStr ''d1''),
                                     (''results'', PList [demo_row, demo_row])]))
          (json_response 500 PNone))"

text \<open>One row per report, and the ingestion endpoint answers every event with 304.\<close>

definition not_modified_run :: "(error + unit) \<times> run_state" where
  "not_modified_run =
     run_once demo_connector
       (demo_env demo_meta
          (json_response 200 (PDict [(''results'', PList [demo_row])]))
          (json_response 304 PNone))"

text \<open>An empty result list in a report issued at the epoch millisecond \<open>10^18\<close>.\<close>

definition far_future_run :: "(error + unit) \<times> run_state" where
  "far_future_run =
     run_once demo_connector
       (demo_env demo_meta
          (json_response 200 (PDict [(''issued'', PInt 1000000000000000000), (''results'', PList [])]))
          (json_response 200 PNone))"

section \<open>Serialisation of an event\<close>

lemma to_dict_values_not_none: "kv \<in> set (to_dict e) \<Longrightarrow> snd kv \<noteq> PNone"
proof -
  assume "kv \<in> set (to_dict e)"
  then have "not_none kv"
    unfolding to_dict_def by (simp only: set_filter mem_Collect_eq)
  then show ?thesis by (simp add: not_none_def)
qed

lemma to_dict_low_value_absent:
  "low e = PNone \<Longrightarrow> value' e = PNone \<Longrightarrow>
     ''low'' \<notin> fst ` set (to_dict e) \<and> ''value'' \<notin> fst ` set (to_dict e)"
  unfolding to_dict_def
  by (auto simp only: set_filter mem_Collect_eq not_none_def set_simps insert_iff empty_iff
      fst_conv snd_conv list.inject char.inject simp_thms)

lemma to_dict_event_type: "map_of (to_dict e) ''event_type'' = Some (PStr (event_type e))"
  by (simp add: to_dict_def not_none_def)

lemma to_dict_dataset_id:
  "dataset_id e \<noteq> PNone \<Longrightarrow> map_of (to_dict e) ''dataset_id'' = Some (dataset_id e)"
  by (simp add: to_dict_def not_none_def)

lemma to_dict_passed: "map_of (to_dict e) ''passed'' = Some (PBool (passed e))"
  by (simp add: to_dict_def not_none_def)

lemma to_dict_category_lookup:
  "map_of (to_dict e) ''category'' =
     (if category_entry e = PNone then None else Some (category_entry e))"
  by (simp add: to_dict_def not_none_def)

lemma category_omitted_iff_empty:
  "map_of (to_dict e) ''category'' = None \<longleftrightarrow> category e = []"
  by (simp add: to_dict_category_lookup category_entry_def)

lemma category_only_context:
  "c \<noteq> PNone \<Longrightarrow>
   map_of (to_dict (init_event d n r (Some [(''context'', c), (''category'', PNone)]) l v p t))
     ''category'' = Some (PDict [(''context'', c)])"
  by (simp add: to_dict_category_lookup category_entry_def init_event_def dict_get_def
      not_none_def)

lemma category_only_category:
  "c \<noteq> PNone \<Longrightarrow>
   map_of (to_dict (init_event d n r (Some [(''context'', PNone), (''category'', c)]) l v p t))
     ''category'' = Some (PDict [(''category'', c)])"
  by (simp add: to_dict_category_lookup category_entry_def init_event_def dict_get_def
      not_none_def)

text \<open>
  C1. The claim: an event whose category has both sub-fields null serialises without a
  \<^verbatim>\<open>category\<close> key. The code tests the truth value of the stored dict, not of the
  filtered one: the two-key dict \<^verbatim>\<open>{"context": None, "category": None}\<close> is truthy, the
  comprehension over it is the empty dict, and the empty dict is not \<^verbatim>\<open>None\<close>, so the
  key stays, with the value \<^verbatim>\<open>{}\<close>. (With exactly one sub-field set the object holds
  that sub-field alone: \<open>category_only_context\<close>, \<open>category_only_category\<close>.)
\<close>

theorem to_dict_both_null_keeps_category:
  "map_of (to_dict (init_event (PStr ''d1'') PNone (PStr ''completeness'')
       (Some [(''context'', PNone), (''category'', PNone)]) PNone PNone True
       ''2024-01-01T00:00:00.000Z'')) ''category'' = Some (PDict [])"
  by (simp add: to_dict_category_lookup category_entry_def init_event_def dict_get_def
      not_none_def)

text \<open>
  C3. The serialised event has no top-level entry whose value is \<^verbatim>\<open>None\<close>; with
  \<^verbatim>\<open>low\<close> and \<^verbatim>\<open>value\<close> both \<^verbatim>\<open>None\<close> neither key is there; \<^verbatim>\<open>event_type\<close> and
  \<^verbatim>\<open>passed\<close> are always there, \<^verbatim>\<open>passed\<close> as a boolean, and so is \<^verbatim>\<open>dataset_id\<close>
  for an event that was given one: the constructor takes \<^verbatim>\<open>dataset_id: str\<close>, and every
  event \<^verbatim>\<open>run_once\<close> builds has one (\<open>build_event_has_dataset_id\<close>).
\<close>

theorem to_dict_no_null_values:
  assumes "dataset_id e \<noteq> PNone"
  shows "(\<forall>kv \<in> set (to_dict e). snd kv \<noteq> PNone)
       \<and> (low e = PNone \<and> value' e = PNone \<longrightarrow>
            ''low'' \<notin> fst ` set (to_dict e) \<and> ''value'' \<notin> fst ` set (to_dict e))
       \<and> map_of (to_dict e) ''event_type'' = Some (PStr (event_type e))
       \<and> map_of (to_dict e) ''dataset_id'' = Some (dataset_id e)
       \<and> (\<exists>b. map_of (to_dict e) ''passed'' = Some (PBool b))"
proof -
  have a: "\<forall>kv \<in> set (to_dict e). snd kv \<noteq> PNone"
    using to_dict_values_not_none by blast
  have b: "low e = PNone \<and> value' e = PNone \<longrightarrow>
      ''low'' \<notin> fst ` set (to_dict e) \<and> ''value'' \<notin> fst ` set (to_dict e)"
    using to_dict_low_value_absent by blast
  have p: "\<exists>b. map_of (to_dict e) ''passed'' = Some (PBool b)"
    using to_dict_passed by blast
  from a b p to_dict_event_type [of e] to_dict_dataset_id [OF assms] show ?thesis
    by blast
qed

theorem to_dict_no_null_values_witness:
  "to_dict (init_event (PStr ''d1'') PNone (PStr ''completeness'') None PNone PNone False
       ''2024-01-01T00:00:00.000Z'') =
     [ (''event_type'', PStr ''quality_check''), (''dataset_id'', PStr ''d1''),
       (''name'', PStr ''completeness''), (''passed'', PBool False),
       (''@timestamp'', PStr ''2024-01-01T00:00:00.000Z'') ]
   \<and> map_of (to_dict (init_event (PStr ''d1'') PNone (PStr ''completeness'') None PNone PNone
       False ''2024-01-01T00:00:00.000Z'')) ''dataset_id'' = Some (PStr ''d1'')"
  using to_dict_no_null_values
    [of "init_event (PStr ''d1'') PNone (PStr ''completeness'') None PNone PNone False
       ''2024-01-01T00:00:00.000Z''"]
  by (simp add: init_event_def to_dict_def not_none_def category_entry_def)

section \<open>The forwarder's credentials\<close>

lemma strip_all_space: "\<forall>c \<in> set s. is_space c \<Longrightarrow> strip s = []"
proof -
  assume "\<forall>c \<in> set s. is_space c"
  then have d: "dropWhile is_space s = []" by simp
  show ?thesis unfolding strip_def d by simp
qed

lemma opt_absent:
  "tok = None \<or> (\<exists>s. tok = Some s \<and> (\<forall>c \<in> set s. is_space c)) \<Longrightarrow> opt tok = None"
  by (auto simp: opt_def strip_all_space)

text \<open>
  C6. With the Basic-auth token absent (\<^verbatim>\<open>None\<close>, empty, or whitespace only),
  \<^verbatim>\<open>send_event\<close> ends in the configuration error and the run state is the one it started
  from: no request was added to the calls made, so nothing was sent to the monitoring
  endpoint.
\<close>

theorem send_event_missing_token:
  assumes "logstash_basic_auth self = None
           \<or> (\<exists>s. logstash_basic_auth self = Some s \<and> (\<forall>c \<in> set s. is_space c))"
  shows "\<exists>msg. send_event self ev evt st = (Inl (RuntimeError msg), st)"
  using opt_absent [OF assms]
  by (simp add: send_event_def logstash_headers_def resolve_logstash_basic_def)

theorem send_event_missing_token_witness:
  "opt (Some ''  '') = None
   \<and> (\<exists>msg. send_event (demo_connector\<lparr>logstash_basic_auth := Some ''  ''\<rparr>)
              (demo_env demo_meta demo_meta demo_meta)
              (init_event (PStr ''d1'') PNone PNone None PNone PNone True ''t'') start
            = (Inl (RuntimeError msg), start))"
proof -
  have h: "\<forall>c \<in> set ''  ''. is_space c" by (simp add: is_space_def)
  then have "logstash_basic_auth (demo_connector\<lparr>logstash_basic_auth := Some ''  ''\<rparr>) = None
      \<or> (\<exists>s. logstash_basic_auth (demo_connector\<lparr>logstash_basic_auth := Some ''  ''\<rparr>) = Some s
             \<and> (\<forall>c \<in> set s. is_space c))"
    by simp
  from send_event_missing_token [OF this] opt_absent [of "Some ''  ''"] h show ?thesis by blast
qed

section \<open>The event of a result row\<close>

lemma py_or_not_none: "b \<noteq> PNone \<Longrightarrow> py_or a b \<noteq> PNone"
  by (cases a) (auto simp: py_or_def)

lemma build_event_has_dataset_id:
  "build_event ev report ds_id ds_name iso_ts res = Inr evt \<Longrightarrow> dataset_id evt \<noteq> PNone"
  by (auto simp: build_event_def init_event_def py_or_not_none
      split: pyval.splits sum.splits if_splits)




text \<open>
  C4. The claim: the event's \<^verbatim>\<open>dataset_id\<close> is the report's \<^verbatim>\<open>datasetId\<close> whenever that
  field is present. The code takes \<^verbatim>\<open>report.get("datasetId") or ds_id\<close>: a field that is
  present but falsy, such as the empty string, gives way to the requested id.
\<close>

theorem dataset_id_present_but_empty:
  "map_of [(''datasetId'', PStr ''''), (''results'', PList [PDict []])] ''datasetId''
     = Some (PStr '''')
   \<and> map_sum id dataset_id
       (build_event (demo_env demo_meta demo_meta demo_meta)
          [(''datasetId'', PStr ''''), (''results'', PList [PDict []])] ''d1'' PNone ''t''
          (PDict []))
     = Inr (PStr ''d1'')"
  by (simp add: build_event_def dict_get_def py_or_def init_event_def)

text \<open>
  C4, amended. The event's \<^verbatim>\<open>dataset_id\<close> is the report's \<^verbatim>\<open>datasetId\<close> if that field is
  present and truthy, and the requested dataset identifier otherwise.
\<close>

theorem build_event_dataset_id:
  assumes "build_event ev report ds_id ds_name iso_ts res = Inr evt"
  shows "dataset_id evt =
           (if truthy (dict_get report ''datasetId'') then dict_get report ''datasetId''
            else PStr ds_id)"
  using assms
  by (auto simp: build_event_def init_event_def py_or_def split: pyval.splits sum.splits if_splits)

theorem build_event_dataset_id_witness:
  "build_event (demo_env demo_meta demo_meta demo_meta) [(''datasetId'', PStr ''ds-7'')] ''d1''
       PNone ''t'' (PDict [])
     = Inr (init_event (PStr ''ds-7'') PNone PNone
              (Some [(''context'', PNone), (''category'', PNone)]) PNone PNone False ''t'')
   \<and> dataset_id (init_event (PStr ''ds-7'') PNone PNone
              (Some [(''context'', PNone), (''category'', PNone)]) PNone PNone False ''t'')
     = PStr ''ds-7''"
proof -
  have b: "build_event (demo_env demo_meta demo_meta demo_meta) [(''datasetId'', PStr ''ds-7'')]
       ''d1'' PNone ''t'' (PDict [])
     = Inr (init_event (PStr ''ds-7'') PNone PNone
              (Some [(''context'', PNone), (''category'', PNone)]) PNone PNone False ''t'')"
    by (simp add: build_event_def dict_get_def py_or_def)
  from b build_event_dataset_id [OF b] show ?thesis by (simp add: dict_get_def)
qed

section \<open>The dataset name\<close>

text \<open>
  C2. The claim: \<^verbatim>\<open>fetch_dataset_name\<close> returns \<^verbatim>\<open>None\<close> rather than raising also for an
  unusable body, and prefers \<^verbatim>\<open>title\<close> whenever both fields are present. The code guards
  the status and the emptiness of the body only: a successful response whose body does
  not decode raises in \<^verbatim>\<open>r.json()\<close>; and \<^verbatim>\<open>j.get("title") or j.get("name")\<close> passes over
  a title that is present but empty.
\<close>

theorem fetch_dataset_name_unusable_body:
  "fst (fetch_dataset_name demo_connector
          (demo_env \<lparr> status_code = 200, body_text = ''<html>'', json_body = None \<rparr>
             demo_meta demo_meta) ''d1'' start)
     = Inl JSONDecodeError
   \<and> fst (fetch_dataset_name demo_connector
          (demo_env (json_response 200 (PDict [(''title'', PStr ''''), (''name'', PStr ''n1'')]))
             demo_meta demo_meta) ''d1'' start)
     = Inr (PStr ''n1'')"
  by (simp add: fetch_dataset_name_def http_def demo_env_def demo_server_def dataset_request_def
      ok_def error_status_def json_def json_response_def dict_get_def)

text \<open>
  C2, amended. When the metadata read is answered with an error status (400 to 599) or
  with an empty body, \<^verbatim>\<open>fetch_dataset_name\<close> returns \<^verbatim>\<open>None\<close> without an error, after
  the one \<^verbatim>\<open>GET\<close>, and \<^verbatim>\<open>run_once\<close> goes on to the criteria of that dataset with the name
  \<^verbatim>\<open>None\<close>. When it is answered successfully with a JSON object whose \<^verbatim>\<open>title\<close> is truthy,
  the title is returned, whatever \<^verbatim>\<open>name\<close> holds.
\<close>

theorem fetch_dataset_name_degrades:
  assumes "server ev (trace st) (dataset_request self ds) = Inr r"
  shows "(\<not> ok r \<or> body_text r = [] \<longrightarrow>
            fetch_dataset_name self ev ds st
              = (Inr PNone, st\<lparr>trace := trace st @ [dataset_request self ds]\<rparr>)
            \<and> run_datasets self ev (ds # rest) st
              = (case run_criteria self ev ds PNone (criteria_ids self)
                        (st\<lparr>trace := trace st @ [dataset_request self ds]\<rparr>) of
                   (Inl e, s) \<Rightarrow> (Inl e, s)
                 | (Inr u, s) \<Rightarrow> run_datasets self ev rest s))
       \<and> (ok r \<and> body_text r \<noteq> [] \<and> json_body r = Some (PDict j)
            \<and> truthy (dict_get j ''title'') \<longrightarrow>
            fetch_dataset_name self ev ds st
              = (Inr (dict_get j ''title''), st\<lparr>trace := trace st @ [dataset_request self ds]\<rparr>))"
  using assms by (auto simp: fetch_dataset_name_def http_def json_def)

theorem fetch_dataset_name_degrades_witness:
  "fetch_dataset_name demo_connector (demo_env (json_response 404 PNone) demo_meta demo_meta)
       ''d1'' start
     = (Inr PNone, start\<lparr>trace := trace start @ [dataset_request demo_connector ''d1'']\<rparr>)
   \<and> fetch_dataset_name demo_connector (demo_env demo_meta demo_meta demo_meta) ''d1'' start
     = (Inr (PStr ''Dataset one''),
        start\<lparr>trace := trace start @ [dataset_request demo_connector ''d1'']\<rparr>)"
proof -
  have a: "server (demo_env (json_response 404 PNone) demo_meta demo_meta) (trace start)
             (dataset_request demo_connector ''d1'') = Inr (json_response 404 PNone)"
    by (simp add: demo_env_def demo_server_def dataset_request_def)
  have b: "server (demo_env demo_meta demo_meta demo_meta) (trace start)
             (dataset_request demo_connector ''d1'') = Inr demo_meta"
    by (simp add: demo_env_def demo_server_def dataset_request_def)
  have c: "\<not> ok (json_response 404 PNone)"
    by (simp add: ok_def error_status_def json_response_def)
  have d: "ok demo_meta \<and> body_text demo_meta \<noteq> []
      \<and> json_body demo_meta
          = Some (PDict [(''title'', PStr ''Dataset one''), (''name'', PStr ''d1-name'')])
      \<and> truthy (dict_get [(''title'', PStr ''Dataset one''), (''name'', PStr ''d1-name'')]
            ''title'')"
    by (simp add: ok_def error_status_def json_response_def demo_meta_def dict_get_def)
  from c d fetch_dataset_name_degrades [OF a, of "[]"]
    fetch_dataset_name_degrades
      [OF b, of "[]" "[(''title'', PStr ''Dataset one''), (''name'', PStr ''d1-name'')]"]
  show ?thesis by (simp add: dict_get_def)
qed

section \<open>Failed calls end the run\<close>

lemmas run_simps =
  run_once_def demo_connector_def init_connector_def demo_env_def demo_server_def
  demo_meta_def json_response_def demo_row_def demo_clock_def start_def
  fetch_dataset_name_def http_def dataset_request_def feast_headers_def
  ok_def error_status_def json_def py_or_def run_pair_def evaluate_quality_def
  quality_request_def raise_for_status_def dict_get_def build_event_def send_event_def
  logstash_headers_def resolve_logstash_basic_def opt_def event_request_def rstrip_slash_def
  strip_def is_space_def

lemma err_of_Inr [simp]: "err_of (Inr v) = None"
  by (simp add: err_of_def)

lemma err_of_Inl [simp]: "err_of (Inl e) = Some e"
  by (simp add: err_of_def)

lemma post_failed_append:
  "i < length tr \<Longrightarrow> post_failed ev (tr @ ext) i = post_failed ev tr i"
  by (simp add: post_failed_def nth_append)

lemma post_failed_last:
  "post_failed ev (tr @ [rq]) (length tr) =
     (meth rq = POST \<and>
      (case server ev tr rq of Inl e \<Rightarrow> False | Inr r \<Rightarrow> error_status (status_code r)))"
  by (simp add: post_failed_def)

lemma stops_at_None:
  "stops_at ev None tr \<longleftrightarrow> (\<forall>i < length tr. \<not> post_failed ev tr i)"
  by (auto simp: stops_at_def post_failed_def split: sum.splits)

lemma stops_at_None_any: "stops_at ev None tr \<Longrightarrow> stops_at ev err tr"
  by (simp add: stops_at_None) (simp add: stops_at_def)

lemma stops_at_snoc:
  assumes "stops_at ev None tr"
    and "post_failed ev (tr @ [rq]) (length tr) \<Longrightarrow>
         (case server ev tr rq of
            Inl e \<Rightarrow> False
          | Inr r \<Rightarrow> err = Some (HTTPError (status_code r)))"
  shows "stops_at ev err (tr @ [rq])"
  unfolding stops_at_def
proof (intro allI impI)
  fix i
  assume i: "i < length (tr @ [rq])" and f: "post_failed ev (tr @ [rq]) i"
  show "Suc i = length (tr @ [rq]) \<and>
        (case server ev (take i (tr @ [rq])) ((tr @ [rq]) ! i) of
           Inl e \<Rightarrow> False
         | Inr r \<Rightarrow> err = Some (HTTPError (status_code r)))"
  proof (cases "i < length tr")
    case True
    with f have "post_failed ev tr i" by (simp add: post_failed_append)
    with assms(1) True show ?thesis by (simp add: stops_at_None)
  next
    case False
    with i have e: "i = length tr" by simp
    with f assms(2) show ?thesis by simp
  qed
qed

lemma fetch_dataset_name_stops:
  assumes "stops_at ev None (trace st)" and "fetch_dataset_name self ev ds st = (res, st')"
  shows "stops_at ev (err_of res) (trace st')"
proof -
  have t: "trace st' = trace st @ [dataset_request self ds]"
    using assms(2)
    by (auto simp: fetch_dataset_name_def http_def split: sum.splits if_splits)
  have "\<not> post_failed ev (trace st @ [dataset_request self ds]) (length (trace st))"
    by (simp add: post_failed_last dataset_request_def)
  with assms(1) show ?thesis unfolding t by (intro stops_at_snoc) auto
qed

lemma evaluate_quality_stops:
  assumes "stops_at ev None (trace st)" and "evaluate_quality self ev ds crit st = (res, st')"
  shows "stops_at ev (err_of res) (trace st')"
proof -
  let ?rq = "quality_request self (clock ev (length (trace st))) ds crit"
  have t: "trace st' = trace st @ [?rq]"
    using assms(2) by (auto simp: evaluate_quality_def http_def split: sum.splits)
  have "post_failed ev (trace st @ [?rq]) (length (trace st)) \<Longrightarrow>
        (case server ev (trace st) ?rq of
           Inl e \<Rightarrow> False
         | Inr r \<Rightarrow> err_of res = Some (HTTPError (status_code r)))"
    using assms(2)
    by (auto simp: post_failed_last evaluate_quality_def http_def raise_for_status_def
        split: sum.splits if_splits)
  with assms(1) show ?thesis unfolding t by (intro stops_at_snoc) auto
qed

lemma send_event_stops:
  assumes "stops_at ev None (trace st)" and "send_event self ev evt st = (res, st')"
  shows "stops_at ev (err_of res) (trace st')"
proof (cases "logstash_headers self")
  case (Inl e)
  with assms(2) have "st' = st" by (simp add: send_event_def)
  with assms(1) show ?thesis by (simp add: stops_at_None_any)
next
  case (Inr hs)
  let ?rq = "event_request self hs evt"
  have t: "trace st' = trace st @ [?rq]"
    using assms(2) Inr by (auto simp: send_event_def http_def split: sum.splits)
  have "post_failed ev (trace st @ [?rq]) (length (trace st)) \<Longrightarrow>
        (case server ev (trace st) ?rq of
           Inl e \<Rightarrow> False
         | Inr r \<Rightarrow> err_of res = Some (HTTPError (status_code r)))"
    using assms(2) Inr
    by (auto simp: post_failed_last send_event_def http_def raise_for_status_def
        split: sum.splits if_splits)
  with assms(1) show ?thesis unfolding t by (intro stops_at_snoc) auto
qed

lemma send_results_stops:
  "stops_at ev None (trace st) \<Longrightarrow>
   send_results self ev report ds_id ds_name iso_ts rows st = (res, st') \<Longrightarrow>
   stops_at ev (err_of res) (trace st')"
proof (induction rows arbitrary: st)
  case Nil
  then show ?case by (auto simp: stops_at_None_any)
next
  case (Cons row rows)
  show ?case
  proof (cases "build_event ev report ds_id ds_name iso_ts row")
    case (Inl e)
    with Cons.prems show ?thesis by (auto simp: stops_at_None_any)
  next
    case built: (Inr evt)
    obtain r1 s1 where s: "send_event self ev evt st = (r1, s1)" by force
    from send_event_stops [OF Cons.prems(1) s] have st1: "stops_at ev (err_of r1) (trace s1)" .
    show ?thesis
    proof (cases r1)
      case (Inl e)
      with Cons.prems(2) built s st1 show ?thesis by auto
    next
      case (Inr u)
      with st1 have "stops_at ev None (trace (s1\<lparr>total_events := total_events s1 + 1\<rparr>))"
        by simp
      moreover from Cons.prems(2) built s Inr
      have "send_results self ev report ds_id ds_name iso_ts rows
              (s1\<lparr>total_events := total_events s1 + 1\<rparr>) = (res, st')"
        by simp
      ultimately show ?thesis by (rule Cons.IH)
    qed
  qed
qed

lemma run_pair_stops:
  assumes "stops_at ev None (trace st)" and "run_pair self ev ds_id ds_name crit st = (res, st')"
  shows "stops_at ev (err_of res) (trace st')"
proof -
  obtain r1 s1 where
    e: "evaluate_quality self ev ds_id crit (st\<lparr>total_pairs := total_pairs st + 1\<rparr>) = (r1, s1)"
    by force
  from assms(1) have "stops_at ev None (trace (st\<lparr>total_pairs := total_pairs st + 1\<rparr>))"
    by simp
  from evaluate_quality_stops [OF this e] have s1: "stops_at ev (err_of r1) (trace s1)" .
  show ?thesis
  proof (cases r1)
    case (Inl x)
    with assms(2) e s1 show ?thesis by (auto simp: run_pair_def)
  next
    case (Inr rep)
    with s1 have c1: "stops_at ev None (trace s1)" by simp
    from assms(2) e Inr c1 show ?thesis
      by (auto simp: run_pair_def Let_def stops_at_None_any send_results_stops
          split: pyval.splits sum.splits)
  qed
qed

lemma run_criteria_stops:
  "stops_at ev None (trace st) \<Longrightarrow>
   run_criteria self ev ds_id ds_name crits st = (res, st') \<Longrightarrow>
   stops_at ev (err_of res) (trace st')"
proof (induction crits arbitrary: st)
  case Nil
  then show ?case by (auto simp: stops_at_None_any)
next
  case (Cons crit crits)
  obtain r1 s1 where p: "run_pair self ev ds_id ds_name crit st = (r1, s1)" by force
  from run_pair_stops [OF Cons.prems(1) p] have s1: "stops_at ev (err_of r1) (trace s1)" .
  show ?case
  proof (cases r1)
    case (Inl e)
    with Cons.prems(2) p s1 show ?thesis by auto
  next
    case (Inr u)
    with s1 have "stops_at ev None (trace s1)" by simp
    moreover from Cons.prems(2) p Inr
    have "run_criteria self ev ds_id ds_name crits s1 = (res, st')" by simp
    ultimately show ?thesis by (rule Cons.IH)
  qed
qed

lemma run_datasets_stops:
  "stops_at ev None (trace st) \<Longrightarrow>
   run_datasets self ev dss st = (res, st') \<Longrightarrow>
   stops_at ev (err_of res) (trace st')"
proof (induction dss arbitrary: st)
  case Nil
  then show ?case by (auto simp: stops_at_None_any)
next
  case (Cons ds dss)
  obtain r1 s1 where f: "fetch_dataset_name self ev ds st = (r1, s1)" by force
  from fetch_dataset_name_stops [OF Cons.prems(1) f]
  have s1: "stops_at ev (err_of r1) (trace s1)" .
  show ?case
  proof (cases r1)
    case (Inl e)
    with Cons.prems(2) f s1 show ?thesis by auto
  next
    case named: (Inr nm)
    with s1 have c1: "stops_at ev None (trace s1)" by simp
    obtain r2 s2 where c: "run_criteria self ev ds nm (criteria_ids self) s1 = (r2, s2)"
      by force
    from run_criteria_stops [OF c1 c] have s2: "stops_at ev (err_of r2) (trace s2)" .
    show ?thesis
    proof (cases r2)
      case (Inl e)
      with Cons.prems(2) f named c s2 show ?thesis by auto
    next
      case (Inr u)
      with s2 have "stops_at ev None (trace s2)" by simp
      moreover from Cons.prems(2) f named c Inr
      have "run_datasets self ev dss s2 = (res, st')" by simp
      ultimately show ?thesis by (rule Cons.IH)
    qed
  qed
qed

text \<open>
  C5. The claim: any non-success HTTP status received by the quality evaluation or by the
  forwarder ends the run at once with an error. The code relies on
  \<^verbatim>\<open>raise_for_status\<close>, which rejects the statuses 400 to 599 only: with the ingestion
  endpoint answering 304 to every event, the run goes through both datasets, forwards
  both events and completes without an error.
\<close>

theorem run_once_continues_after_304:
  "fst not_modified_run = Inr ()
   \<and> map meth (trace (snd not_modified_run)) = [GET, POST, POST, GET, POST, POST]
   \<and> map url (trace (snd not_modified_run))
       = [''http://feast/Dataset/d1'',
          ''http://feast/Dataset/d1/DatasetQualityCriteria/c1/$quality'',
          ''http://logstash'',
          ''http://feast/Dataset/d2'',
          ''http://feast/Dataset/d2/DatasetQualityCriteria/c1/$quality'',
          ''http://logstash'']
   \<and> map_sum id status_code
       (server (demo_env demo_meta (json_response 200 (PDict [(''results'', PList [demo_row])]))
                  (json_response 304 PNone))
          (take 2 (trace (snd not_modified_run))) (trace (snd not_modified_run) ! 2))
       = Inr 304
   \<and> total_pairs (snd not_modified_run) = 2
   \<and> total_events (snd not_modified_run) = 2"
  by (simp add: not_modified_run_def run_simps parsed_to_iso_z_def)

text \<open>
  C5, amended. Take any run of \<^verbatim>\<open>run_once\<close> and any of its network calls that was a
  \<^verbatim>\<open>POST\<close> (the quality evaluation or the forwarding of an event) answered with an error
  status, from 400 to 599. Then that call is the last call the run made, and the run ended
  with the HTTP error of that status: no later pair, row or dataset was attempted. In
  particular a 500 on the first forwarded event ends the whole run.
\<close>

theorem run_once_stops_at_failed_post:
  assumes "run_once self ev = (res, st)"
    and "i < length (trace st)"
    and "meth (trace st ! i) = POST"
    and "server ev (take i (trace st)) (trace st ! i) = Inr r"
    and "400 \<le> status_code r" and "status_code r < 600"
  shows "res = Inl (HTTPError (status_code r)) \<and> Suc i = length (trace st)"
proof -
  have "stops_at ev None (trace \<lparr> trace = [], total_pairs = 0, total_events = 0 \<rparr>)"
    by (simp add: stops_at_def)
  from run_datasets_stops [OF this assms(1) [unfolded run_once_def]]
  have s: "stops_at ev (err_of res) (trace st)" .
  have "post_failed ev (trace st) i"
    using assms(3-6) by (simp add: post_failed_def error_status_def)
  with s assms(2,4)
  have "Suc i = length (trace st) \<and> err_of res = Some (HTTPError (status_code r))"
    by (auto simp: stops_at_def)
  then show ?thesis by (cases res) auto
qed

text \<open>
  The scenario of the claim: two datasets are configured, the first report has two rows,
  and the ingestion endpoint answers the first forwarded event with 500. The run ends
  with that error after three calls (the metadata read, the evaluation, the one event).
\<close>

lemma ingest_failure_run_eval:
  "ingest_failure_run =
     (Inl (HTTPError 500),
      \<lparr> trace =
          [ dataset_request demo_connector ''d1'',
            quality_request demo_connector (demo_clock 1) ''d1'' ''c1'',
            event_request demo_connector
              [(''Content-Type'', ''application/json''),
               (''Authorization'', ''Basic dXNlcjpwYXNz'')]
              (init_event (PStr ''d1'') (PStr ''Dataset one'') (PStr ''completeness'')
                 (Some [(''context'', PNone), (''category'', PNone)]) PNone (PFloat (19 / 20))
                 True (iso_z (demo_clock 2))) ],
        total_pairs = 1, total_events = 0 \<rparr>)"
  by (simp add: ingest_failure_run_def run_simps parsed_to_iso_z_def)

theorem run_once_stops_at_failed_post_witness:
  "fst ingest_failure_run = Inl (HTTPError 500)
   \<and> map url (trace (snd ingest_failure_run))
       = [''http://feast/Dataset/d1'',
          ''http://feast/Dataset/d1/DatasetQualityCriteria/c1/$quality'',
          ''http://logstash'']
   \<and> total_pairs (snd ingest_failure_run) = 1
   \<and> total_events (snd ingest_failure_run) = 0"
proof -
  let ?E = "demo_env demo_meta
              (json_response 200 (PDict [(''datasetId'', PStr ''d1''),
                                         (''results'', PList [demo_row, demo_row])]))
              (json_response 500 PNone)"
  have r: "run_once demo_connector ?E = (fst ingest_failure_run, snd ingest_failure_run)"
    by (simp add: ingest_failure_run_def)
  have h2: "2 < length (trace (snd ingest_failure_run))"
    by (simp add: ingest_failure_run_eval)
  have h3: "meth (trace (snd ingest_failure_run) ! 2) = POST"
    by (simp add: ingest_failure_run_eval event_request_def)
  have h4: "server ?E (take 2 (trace (snd ingest_failure_run)))
              (trace (snd ingest_failure_run) ! 2) = Inr (json_response 500 PNone)"
    by (simp add: ingest_failure_run_eval event_request_def demo_env_def demo_server_def
        demo_connector_def init_connector_def)
  have h5: "400 \<le> status_code (json_response 500 PNone)" by (simp add: json_response_def)
  have h6: "status_code (json_response 500 PNone) < 600" by (simp add: json_response_def)
  have u: "map url (trace (snd ingest_failure_run))
       = [''http://feast/Dataset/d1'',
          ''http://feast/Dataset/d1/DatasetQualityCriteria/c1/$quality'',
          ''http://logstash'']"
    by (simp add: ingest_failure_run_eval event_request_def dataset_request_def
        quality_request_def demo_connector_def init_connector_def rstrip_slash_def)
  have p: "total_pairs (snd ingest_failure_run) = 1" by (simp add: ingest_failure_run_eval)
  have e: "total_events (snd ingest_failure_run) = 0" by (simp add: ingest_failure_run_eval)
  from run_once_stops_at_failed_post [OF r h2 h3 h4 h5 h6] u p e
  show ?thesis by (simp add: json_response_def)
qed

section \<open>The timestamp of a report\<close>

lemma numeric_to_iso_z_far_future: "numeric_to_iso_z (PInt 1000000000000000000) = Inl ValueError"
  by code_simp

lemma to_iso_z_unparseable:
  "parse (PStr s) = None \<Longrightarrow> to_iso_z parse now (PStr s) = Inr (iso_z now)"
  by (simp add: parsed_to_iso_z_def)

lemma to_iso_z_not_numeric:
  "ts = PNone \<or> (\<exists>s. ts = PStr s) \<or> (\<exists>xs. ts = PList xs) \<or> (\<exists>d. ts = PDict d) \<Longrightarrow>
   \<exists>s. to_iso_z parse now ts = Inr s"
  by auto

text \<open>
  C7. The claim: \<^verbatim>\<open>to_iso_z\<close> never raises. The \<^verbatim>\<open>try\<close> covers the string branch only
  (\<open>to_iso_z_unparseable\<close>, \<open>to_iso_z_not_numeric\<close>); the numeric branch calls
  \<^verbatim>\<open>datetime.fromtimestamp\<close> outside it, and an epoch value beyond the year 9999, here
  \<open>10^18\<close> milliseconds, raises \<^verbatim>\<open>ValueError\<close>.
\<close>

theorem to_iso_z_numeric_out_of_range:
  "to_iso_z parse now (PInt 1000000000000000000) = Inl ValueError"
  by (simp add: numeric_to_iso_z_far_future)

section \<open>A report without results\<close>

lemma run_pair_empty_results:
  assumes "evaluate_quality self ev ds crit (st\<lparr>total_pairs := total_pairs st + 1\<rparr>)
             = (Inr (PDict report), st1)"
    and "map_of report ''results'' = None \<or> map_of report ''results'' = Some (PList [])"
    and "to_iso_z (isoparse ev) (clock ev (length (trace st1))) (dict_get report ''issued'')
           = Inr iso_ts"
  shows "run_pair self ev ds nm crit st = (Inr (), st1)
       \<and> total_pairs st1 = total_pairs st + 1
       \<and> total_events st1 = total_events st
       \<and> trace st1 = trace st @ [quality_request self (clock ev (length (trace st))) ds crit]"
proof -
  from assms(2) have "py_or (dict_get report ''results'') (PList []) = PList []"
    by (auto simp: dict_get_def py_or_def)
  with assms(1,3) have "run_pair self ev ds nm crit st = (Inr (), st1)"
    by (simp add: run_pair_def)
  moreover from assms(1)
  have "st1 = st\<lparr>total_pairs := total_pairs st + 1,
                 trace := trace st @ [quality_request self (clock ev (length (trace st))) ds crit]\<rparr>"
    by (auto simp: evaluate_quality_def http_def split: sum.splits)
  ultimately show ?thesis by simp
qed

text \<open>
  C9. The claim: a pair whose report has an empty or absent result list goes through
  without an error. The pair counter is incremented, no event is forwarded and the event
  counter stays (\<open>run_pair_empty_results\<close>), but only when the report's timestamp
  normalises: the timestamp is normalised before the result list is looked at, and a
  numeric \<^verbatim>\<open>issued\<close> beyond the year 9999 ends the run with \<^verbatim>\<open>ValueError\<close>.
\<close>

theorem empty_results_far_future_issued:
  "fst far_future_run = Inl ValueError
   \<and> total_pairs (snd far_future_run) = 1
   \<and> total_events (snd far_future_run) = 0
   \<and> map url (trace (snd far_future_run))
       = [''http://feast/Dataset/d1'',
          ''http://feast/Dataset/d1/DatasetQualityCriteria/c1/$quality'']"
  by (simp add: far_future_run_def run_simps numeric_to_iso_z_far_future)


section \<open>Epoch milliseconds\<close>

text \<open>
  Rounding to a double moves a number of magnitude below \<open>2^n\<close> by at most
  \<open>2^(n-54)\<close>, and leaves an integer below \<open>2^53\<close> where it is.
\<close>

lemma pow2_pos: "0 < pow2 k"
  by (simp add: pow2_def)

lemma round_half_even_err: "\<bar>of_int (round_half_even y) - y\<bar> \<le> 1 / 2"
  unfolding round_half_even_def Let_def
  by (auto simp: abs_if) linarith+

lemma round_half_even_near:
  assumes "\<bar>m - of_int n\<bar> < 1 / 2"
  shows "round_half_even m = n"
proof -
  from assms have a: "of_int n - 1 / 2 < m" and b: "m < of_int n + 1 / 2" by (auto simp: abs_if split: if_splits)
  show ?thesis
  proof (cases "of_int n \<le> m")
    case True
    with b have "\<lfloor>m\<rfloor> = n" by (simp add: floor_unique)
    with b show ?thesis by (simp add: round_half_even_def Let_def)
  next
    case False
    with a have "\<lfloor>m\<rfloor> = n - 1" by (intro floor_unique) auto
    with a show ?thesis by (simp add: round_half_even_def Let_def)
  qed
qed

lemma ilog2_nonneg: "1 \<le> \<bar>x\<bar> \<Longrightarrow> 0 \<le> ilog2 x"
proof -
  assume a: "1 \<le> \<bar>x\<bar>"
  then have "0 < \<lfloor>\<bar>x\<bar>\<rfloor>" by simp
  then have "bitlen \<lfloor>\<bar>x\<bar>\<rfloor> \<noteq> 0" by (simp add: bitlen_eq_zero_iff)
  with bitlen_nonneg [of "\<lfloor>\<bar>x\<bar>\<rfloor>"] a show ?thesis by (simp add: ilog2_def)
qed

lemma ilog2_less: 
  assumes "\<bar>x\<bar> < 2 ^ n" and "0 < n"
  shows "ilog2 x < int n"
proof (cases "1 \<le> \<bar>x\<bar>")
  case True
  then have p: "0 < \<lfloor>\<bar>x\<bar>\<rfloor>" by simp
  from assms(1) have "\<lfloor>\<bar>x\<bar>\<rfloor> < 2 ^ n"
    by (metis floor_less_iff of_int_numeral of_int_power)
  with bitlen_bounds [OF p] have "(2::int) ^ nat (bitlen \<lfloor>\<bar>x\<bar>\<rfloor> - 1) < 2 ^ n" by linarith
  then have "nat (bitlen \<lfloor>\<bar>x\<bar>\<rfloor> - 1) < n" by simp
  with True show ?thesis by (simp add: ilog2_def)
next
  case False
  with bitlen_nonneg [of "\<lceil>1 / \<bar>x\<bar>\<rceil> - 1"] assms(2) show ?thesis by (simp add: ilog2_def)
qed


lemma pow2_neg: "k \<le> 0 \<Longrightarrow> pow2 k = 1 / 2 ^ nat (- k)"
  by (auto simp: pow2_def)

lemma pow2_mono: "j \<le> k \<Longrightarrow> pow2 j \<le> pow2 k"
proof -
  assume jk: "j \<le> k"
  have e: "pow2 i = 2 powi i" for i
    by (simp add: pow2_def power_int_def field_simps)
  show ?thesis unfolding e using jk by (simp add: power_int_increasing)
qed

lemma to_double_err:
  assumes "\<bar>x\<bar> < 2 ^ n" and "0 < n" and "n \<le> 53"
  shows "\<bar>to_double x - x\<bar> \<le> 1 / 2 ^ (54 - n)"
proof (cases "x = 0")
  case True
  then show ?thesis by (simp add: to_double_def)
next
  case False
  define u where "u = pow2 (max (ilog2 x - 52) (- 1074))"
  have up: "0 < u" by (simp add: u_def pow2_pos)
  have "max (ilog2 x - 52) (- 1074) \<le> int n - 53"
    using ilog2_less [OF assms(1,2)] assms(2,3) by simp
  then have "u \<le> pow2 (int n - 53)" unfolding u_def by (rule pow2_mono)
  also have "\<dots> = 1 / 2 ^ (53 - n)"
    using assms(3) by (simp add: pow2_neg nat_diff_distrib')
  finally have ub: "u \<le> 1 / 2 ^ (53 - n)" .
  have "to_double x - x = (of_int (round_half_even (x / u)) - x / u) * u"
    using False up by (simp add: to_double_def Let_def u_def [symmetric] field_simps)
  then have "\<bar>to_double x - x\<bar> = \<bar>of_int (round_half_even (x / u)) - x / u\<bar> * u"
    using up by (simp add: abs_mult)
  also have "\<dots> \<le> (1 / 2) * u"
    using round_half_even_err [of "x / u"] up by (intro mult_right_mono) auto
  also have "\<dots> \<le> (1 / 2) * (1 / 2 ^ (53 - n))"
    using ub by simp
  also have "\<dots> = 1 / 2 ^ (54 - n)"
  proof -
    from assms(3) have "54 - n = Suc (53 - n)" by simp
    then show ?thesis by simp
  qed
  finally show ?thesis .
qed

lemma round_half_even_int [simp]: "round_half_even (of_int k) = k"
  by (simp add: round_half_even_def)

lemma round_half_even_zero [simp]: "round_half_even 0 = 0"
  by (simp add: round_half_even_def)

lemma to_double_int:
  assumes "\<bar>t\<bar> < 2 ^ 53"
  shows "to_double (of_int t) = of_int t"
proof (cases "t = 0")
  case True
  then show ?thesis by (simp add: to_double_def)
next
  case False
  let ?x = "of_int t :: rat"
  have "(of_int 1 :: rat) \<le> of_int \<bar>t\<bar>" using False by (simp only: of_int_le_iff)
  then have a1: "1 \<le> \<bar>?x\<bar>" by simp
  have "(of_int \<bar>t\<bar> :: rat) < of_int (2 ^ 53)" using assms by (simp only: of_int_less_iff)
  then have "\<bar>?x\<bar> < 2 ^ 53" by simp
  from ilog2_less [OF this] have l: "ilog2 ?x < 53" by simp
  from ilog2_nonneg [OF a1] have g: "0 \<le> ilog2 ?x" .
  define k where "k = nat (52 - ilog2 ?x)"
  have m: "max (ilog2 ?x - 52) (- 1074) = - int k" using l g by (simp add: k_def)
  have u: "pow2 (- int k) = 1 / 2 ^ k" by (simp add: pow2_neg)
  have "?x / (1 / 2 ^ k) = of_int (t * 2 ^ k)" by simp
  then have "round_half_even (?x / (1 / 2 ^ k)) = t * 2 ^ k"
    by (simp only: round_half_even_int)
  then show ?thesis using False by (simp add: to_double_def Let_def m u)
qed


lemma trunc_between:
  assumes "of_int q < d" and "d < of_int q + 1"
  shows "trunc d = (if 0 \<le> q then q else q + 1)"
proof (cases "0 \<le> q")
  case True
  then have "(0::rat) \<le> of_int q" by simp
  with assms(1) have "0 \<le> d" by linarith
  moreover from assms have "\<lfloor>d\<rfloor> = q" by (intro floor_unique) auto
  ultimately show ?thesis using True by (simp add: trunc_def)
next
  case False
  then have "q + 1 \<le> 0" by simp
  then have "(of_int (q + 1) :: rat) \<le> 0" by (simp only: of_int_le_0_iff)
  with assms(2) have "d < 0" by simp
  moreover from assms have "\<lceil>d\<rceil> = q + 1" by (intro ceiling_unique) auto
  ultimately show ?thesis using False by (simp add: trunc_def)
qed

lemma micro_round:
  assumes "\<bar>y - of_int m\<bar> \<le> 1000000 / 2 ^ 21" and "\<bar>m\<bar> \<le> 1000000"
  shows "round_half_even (to_double y) = m"
proof -
  have "\<bar>(of_int m :: rat)\<bar> \<le> 1000000"
    using assms(2) by (metis of_int_abs of_int_le_iff of_int_numeral)
  with assms(1) have "\<bar>y\<bar> < 2 ^ 20" by (simp add: abs_if split: if_splits)
  from to_double_err [OF this] have "\<bar>to_double y - y\<bar> \<le> 1 / 2 ^ 34" by simp
  with assms(1) have "\<bar>to_double y - of_int m\<bar> < 1 / 2"
    by (simp add: abs_if split: if_splits)
  then show ?thesis by (rule round_half_even_near)
qed

lemma fromtimestamp_ms:
  assumes "\<bar>t\<bar> < 8589934592000"
  shows "fromtimestamp (to_double (of_int t / 1000))
           = utc_datetime (t div 1000) (1000 * (t mod 1000))"
proof -
  define q where "q = t div 1000"
  define r where "r = t mod 1000"
  define x :: rat where "x = of_int t / 1000"
  define d where "d = to_double x"
  have t: "t = 1000 * q + r" by (simp add: q_def r_def)
  have r: "0 \<le> r" "r < 1000" by (simp_all add: r_def)
  have x: "x = of_int q + of_int r / 1000" by (simp add: x_def t)
  have "\<bar>q\<bar> < 9007199254740992" using assms t r by linarith
  then have qb: "\<bar>q\<bar> < 2 ^ 53" by simp
  have "\<bar>(of_int t :: rat)\<bar> < 8589934592000"
    using assms by (metis of_int_abs of_int_less_iff of_int_numeral)
  then have xb: "\<bar>x\<bar> < 2 ^ 33" by (simp add: x_def)
  from to_double_err [OF xb] have e: "\<bar>d - x\<bar> \<le> 1 / 2 ^ 21" by (simp add: d_def)
  show ?thesis
  proof (cases "r = 0")
    case True
    with x have "x = of_int q" by simp
    with qb have "d = of_int q" by (simp add: d_def to_double_int)
    then have "fromtimestamp d = utc_datetime q 0"
      by (simp add: fromtimestamp_def trunc_def to_double_def Let_def)
    with True show ?thesis by (simp add: d_def x_def q_def r_def)
  next
    case False
    with r have r1: "1 \<le> r" "r \<le> 999" by simp_all
    then have rr: "(1::rat) \<le> of_int r" "(of_int r :: rat) \<le> 999"
      by simp_all
    from e x rr have lo: "of_int q < d" and hi: "d < of_int q + 1"
      by (simp_all add: abs_if split: if_splits) 
    from trunc_between [OF lo hi] have tr: "trunc d = (if 0 \<le> q then q else q + 1)" .
    show ?thesis
    proof (cases "0 \<le> q")
      case True
      with tr have tq: "trunc d = q" by simp
      have "\<bar>(d - of_int q) * 1000000 - of_int (1000 * r)\<bar> = 1000000 * \<bar>d - x\<bar>"
        by (simp add: x abs_if field_simps)
      also have "\<dots> \<le> 1000000 / 2 ^ 21" using e by simp
      finally have "round_half_even (to_double ((d - of_int q) * 1000000)) = 1000 * r"
        using r1 by (intro micro_round) simp_all
      then have "fromtimestamp d = utc_datetime q (1000 * r)"
        using r1 by (simp add: fromtimestamp_def tq Let_def)
      then show ?thesis by (simp add: d_def x_def q_def r_def)
    next
      case False
      with tr have tq: "trunc d = q + 1" by simp
      have "\<bar>(d - of_int (q + 1)) * 1000000 - of_int (1000 * r - 1000000)\<bar>
              = 1000000 * \<bar>d - x\<bar>"
        by (simp add: x abs_if field_simps)
      also have "\<dots> \<le> 1000000 / 2 ^ 21" using e by simp
      finally have "round_half_even (to_double ((d - of_int (q + 1)) * 1000000))
                      = 1000 * r - 1000000"
        using r1 by (intro micro_round) simp_all
      then have "fromtimestamp d = utc_datetime q (1000 * r)"
        using r1 by (simp add: fromtimestamp_def tq Let_def)
      then show ?thesis by (simp add: d_def x_def q_def r_def)
    qed
  qed
qed

text \<open>
  For an epoch value below \<open>2^33\<close> seconds in magnitude the quotient by 1000 is within
  \<open>2^-21\<close> of the exact one, so the microseconds \<^verbatim>\<open>fromtimestamp\<close> rounds to are the
  exact milliseconds times 1000.
\<close>

lemma div_bounds:
  fixes a b :: int
  assumes "0 < b"
  shows "b * (a div b) \<le> a \<and> a < b * (a div b) + b"
proof -
  have "a = b * (a div b) + a mod b" by simp
  moreover have "0 \<le> a mod b" "a mod b < b" using assms by simp_all
  ultimately show ?thesis by linarith
qed

lemma civil_year_bounds:
  assumes "- 100000 \<le> z" and "z \<le> 100000" and "civil_from_days z = (y, m, d)"
  shows "1600 \<le> y \<and> y \<le> 2401"
proof -
  define era where "era = (z + 719468) div 146097"
  define doe where "doe = z + 719468 - era * 146097"
  define yoe where "yoe = (doe - doe div 1460 + doe div 36524 - doe div 146096) div 365"
  have era: "4 \<le> era" "era \<le> 5"
    using assms(1,2) div_bounds [of 146097 "z + 719468"] unfolding era_def by linarith+
  have doe: "0 \<le> doe" "doe < 146097"
    using div_bounds [of 146097 "z + 719468"] unfolding doe_def era_def by linarith+
  have n: "0 \<le> doe - doe div 1460 + doe div 36524 - doe div 146096"
       "doe - doe div 1460 + doe div 36524 - doe div 146096 < 401 * 365"
    using doe div_bounds [of 1460 doe] div_bounds [of 36524 doe] div_bounds [of 146096 doe]
    by linarith+
  have y0: "0 \<le> yoe" and y1: "yoe \<le> 400"
    using n div_bounds [of 365 "doe - doe div 1460 + doe div 36524 - doe div 146096"]
    unfolding yoe_def by linarith+
  have g: "\<And>a c. a + (if c then 1 else 0) = a \<or> a + (if c then (1::int) else 0) = a + 1"
    by simp
  have "fst (civil_from_days z) = yoe + era * 400
        \<or> fst (civil_from_days z) = yoe + era * 400 + 1"
    unfolding civil_from_days_def Let_def fst_conv yoe_def doe_def era_def by (rule g)
  with assms(3) have "y = yoe + era * 400 \<or> y = yoe + era * 400 + 1" by simp
  with era y0 y1 show ?thesis by linarith
qed

lemma digit_char_no_plus: "k < 10 \<Longrightarrow> digit_char k \<noteq> CHR ''+''"
proof -
  assume "k < 10"
  then have "k \<in> {0, 1, 2, 3, 4, 5, 6, 7, 8, 9}" by auto
  then show ?thesis by (auto simp: digit_char_def)
qed

lemma digits_no_plus: "CHR ''+'' \<notin> set (digits n)"
proof (induction n rule: digits.induct)
  case (1 n)
  show ?case
  proof (cases "n < 10")
    case True
    then show ?thesis using digit_char_no_plus [of n] by (subst digits.simps) auto
  next
    case False
    have "n mod 10 < 10" by simp
    with False 1 show ?thesis using digit_char_no_plus [of "n mod 10"]
      by (subst digits.simps) auto
  qed
qed

lemma zpad_no_plus: "CHR ''+'' \<notin> set (zpad w n)"
  by (auto simp: zpad_def digits_no_plus)

lemma replace_suffix:
  "CHR ''+'' \<notin> set p \<Longrightarrow> replace ''+00:00'' ''Z'' (p @ ''+00:00'') = p @ ''Z''"
  unfolding replace_def
  by (induction p) (auto simp: numeral_eq_Suc)

lemma format_offset_utc: "format_offset 0 = ''+00:00''"
  by (simp add: format_offset_def zpad_def digits.simps digit_char_def)

lemma iso_z_utc:
  assumes "tzoffset dt = Some 0"
  shows "iso_z dt =
           zpad 4 (year dt) @ ''-'' @ zpad 2 (month dt) @ ''-'' @ zpad 2 (day dt) @ ''T''
           @ zpad 2 (hour dt) @ '':'' @ zpad 2 (minute dt) @ '':'' @ zpad 2 (second dt)
           @ ''.'' @ zpad 3 (microsecond dt div 1000) @ ''Z''"
proof -
  let ?p = "zpad 4 (year dt) @ ''-'' @ zpad 2 (month dt) @ ''-'' @ zpad 2 (day dt) @ ''T''
           @ zpad 2 (hour dt) @ '':'' @ zpad 2 (minute dt) @ '':'' @ zpad 2 (second dt)
           @ ''.'' @ zpad 3 (microsecond dt div 1000)"
  have "CHR ''+'' \<notin> set ?p" by (simp add: zpad_no_plus)
  from replace_suffix [OF this] have "replace ''+00:00'' ''Z'' (?p @ ''+00:00'') = ?p @ ''Z''" .
  moreover have "isoformat_ms dt = ?p @ ''+00:00''"
    using assms by (simp add: isoformat_ms_def format_offset_utc)
  ultimately show ?thesis by (simp add: iso_z_def)
qed

lemma utc_datetime_near:
  assumes "\<bar>q\<bar> \<le> 8589934592"
  shows "map_sum id iso_z (utc_datetime q (1000 * ms)) =
           Inr (let (y, m, d) = civil_from_days (q div 86400); r = q mod 86400
                in zpad 4 y @ ''-'' @ zpad 2 m @ ''-'' @ zpad 2 d @ ''T''
                   @ zpad 2 (r div 3600) @ '':'' @ zpad 2 ((r mod 3600) div 60) @ '':''
                   @ zpad 2 (r mod 60) @ ''.'' @ zpad 3 ms @ ''Z'')"
proof -
  obtain y m d where c: "civil_from_days (q div 86400) = (y, m, d)"
    by (metis prod_cases3)
  have "- 100000 \<le> q div 86400" "q div 86400 \<le> 100000"
    using assms div_bounds [of 86400 q] by linarith+
  from civil_year_bounds [OF this c] have y: "1600 \<le> y" "y \<le> 2401" by simp_all
  have q: "\<not> (q < - (2 ^ 63) \<or> 2 ^ 63 \<le> q)"
    using assms by (auto simp: abs_if split: if_splits)
  from y have y2: "\<not> (y - 1900 < - (2 ^ 31) \<or> 2 ^ 31 \<le> y - 1900)" "\<not> (y < 1 \<or> 9999 < y)"
    by simp_all
  let ?dt = "\<lparr> year = y, month = m, day = d, hour = (q mod 86400) div 3600,
                minute = ((q mod 86400) mod 3600) div 60, second = (q mod 86400) mod 60,
                microsecond = 1000 * ms, tzoffset = Some 0 \<rparr>"
  have u: "utc_datetime q (1000 * ms) = Inr ?dt"
    using q y2 c by (simp add: utc_datetime_def Let_def)
  show ?thesis unfolding u by (simp add: c iso_z_utc Let_def)
qed

text \<open>
  C8. The claim: for every numeric \<open>t\<close> the result denotes the instant \<open>t\<close>
  milliseconds after the epoch, cut to milliseconds. \<^verbatim>\<open>float(ts)/1000.0\<close> is a double:
  one millisecond past \<open>2^33\<close> seconds (in the year 2242) the quotient rounds below the
  millisecond and the result is one millisecond early; and \<^verbatim>\<open>fromtimestamp\<close> rounds a
  fraction of a millisecond to the nearest microsecond before the cut, so 1.9996 is
  rendered as 2 milliseconds.
\<close>

theorem to_iso_z_loses_millisecond:
  "to_iso_z (\<lambda>v. None) (demo_clock 0) (PInt 8589934592001) = Inr ''2242-03-16T12:56:32.000Z''
   \<and> iso_of_epoch_ms 8589934592001 = ''2242-03-16T12:56:32.001Z''
   \<and> to_iso_z (\<lambda>v. None) (demo_clock 0) (PFloat (to_double (19996 / 10000)))
       = Inr ''1970-01-01T00:00:00.002Z''
   \<and> iso_of_epoch_ms \<lfloor>to_double (19996 / 10000)\<rfloor> = ''1970-01-01T00:00:00.001Z''"
proof -
  have a: "numeric_to_iso_z (PInt 8589934592001) = Inr ''2242-03-16T12:56:32.000Z''"
    by code_simp
  have b: "iso_of_epoch_ms 8589934592001 = ''2242-03-16T12:56:32.001Z''"
    by code_simp
  have c: "numeric_to_iso_z (PFloat (to_double (19996 / 10000)))
             = Inr ''1970-01-01T00:00:00.002Z''"
    by code_simp
  have d: "iso_of_epoch_ms \<lfloor>to_double (19996 / 10000)\<rfloor> = ''1970-01-01T00:00:00.001Z''"
    by code_simp
  from a b c d show ?thesis by simp
qed

text \<open>
  C8, amended. For every integer \<open>t\<close> with \<open>|t| < 2^33 * 1000 = 8589934592000\<close>
  (instants from 1697-10-17 to 2242-03-16), given as an \<^verbatim>\<open>int\<close> or as a \<^verbatim>\<open>float\<close> of that
  value, \<^verbatim>\<open>to_iso_z\<close> returns the UTC ISO-8601 string with millisecond precision and the
  suffix \<^verbatim>\<open>Z\<close> of the instant \<open>t\<close> milliseconds after the epoch.
\<close>

theorem to_iso_z_epoch_ms:
  assumes "\<bar>t\<bar> < 8589934592000" and "ts = PInt t \<or> ts = PFloat (of_int t)"
  shows "to_iso_z parse now ts = Inr (iso_of_epoch_ms t)"
proof -
  have tb: "\<bar>t\<bar> < 2 ^ 53" using assms(1) by simp
  have "\<bar>(of_int t :: rat)\<bar> < 8589934592000"
    using assms(1) by (metis of_int_abs of_int_less_iff of_int_numeral)
  moreover have "(8589934592000 :: rat) \<le> 2 ^ 1024" by simp
  ultimately have nb: "\<not> (2 :: rat) ^ 1024 \<le> \<bar>of_int t\<bar>" by linarith
  have f: "py_float (\<lambda>s. None) ts = Inr (of_int t)"
    using assms(2) nb by (auto simp: to_double_int [OF tb] Let_def)
  have "\<bar>t div 1000\<bar> \<le> 8589934592"
    using assms(1) div_bounds [of 1000 t] by linarith
  from utc_datetime_near [OF this, of "t mod 1000"]
  have "map_sum id iso_z (fromtimestamp (to_double (of_int t / 1000)))
          = Inr (iso_of_epoch_ms t)"
    by (simp add: fromtimestamp_ms [OF assms(1)] iso_of_epoch_ms_def Let_def)
  then have "numeric_to_iso_z ts = Inr (iso_of_epoch_ms t)"
    by (auto simp: numeric_to_iso_z_def f split: sum.splits)
  with assms(2) show ?thesis by auto
qed

lemma iso_of_epoch_ms_2023: "iso_of_epoch_ms 1700000000123 = ''2023-11-14T22:13:20.123Z''"
  by code_simp

theorem to_iso_z_epoch_ms_witness:
  "to_iso_z (\<lambda>v. None) (demo_clock 0) (PInt 1700000000123) = Inr ''2023-11-14T22:13:20.123Z''"
proof -
  have a: "\<bar>1700000000123 :: int\<bar> < 8589934592000" by simp
  from to_iso_z_epoch_ms [OF a, of "PInt 1700000000123"] iso_of_epoch_ms_2023
  show ?thesis by simp
qed


end
